theory Spec2Isabelle
  imports Complex_Main "HOL-Library.Sublist"
begin

section \<open>The coordinator: data model\<close>

text \<open>
  The coordinator is an event-driven program: every handler (connection, message, close,
  the body of one ramp iteration) runs to completion on one event loop, so a handler is a
  function from the state before to the state after. JavaScript numbers are read as
  rationals (reports) or naturals (ramp targets, array lengths) and timestamps of
  \<open>Date.now()\<close> as integers (milliseconds); rounding of doubles is not modelled.

  A \<open>ws\<close> connection object is identified by a handle. Each connection event creates
  exactly one node object for its \<open>ws\<close>, so the handle also stands for the identity of
  that node object: \<open>objs\<close> is the store of node objects, \<open>nodes\<close> the array of
  references into it.
\<close>

type_synonym conn = nat

text \<open>
  The \<open>metrics\<close> object of a report, with the fields the aggregator reads. A field is
  \<open>None\<close> when the object does not have it (reading it gives \<open>undefined\<close>) and a number
  otherwise, as in the protocol's report message. For a report whose \<open>metrics\<close> is not
  such an object, the section on parsed JSON below models what the handler stores and
  what the filter of the aggregation does with it; the sums and gauges are modelled for
  numeric fields only.
\<close>

record metrics_obj =
  connected :: "rat option"
  avgStartup :: "rat option"
  avgBitrate :: "rat option"
  avgBuffers :: "rat option"
  avgBufferTime :: "rat option"
  cpu :: "rat option"
  mem :: "rat option"
  clients :: "rat option"
  failures :: "rat option"

definition empty_metrics :: metrics_obj where
  "empty_metrics = \<lparr>connected = None, avgStartup = None, avgBitrate = None,
     avgBuffers = None, avgBufferTime = None, cpu = None, mem = None, clients = None,
     failures = None\<rparr>"

record node =
  nodeId :: string
  ws :: conn
  lastReport :: int
  metrics :: metrics_obj

text \<open>Messages the coordinator sends: \<open>register\<close> with the node id, \<open>ramp\<close> with
  \<open>clients\<close> and \<open>step\<close>.\<close>

datatype outmsg = Register string | Ramp nat nat

text \<open>What \<open>JSON.parse\<close> and the test \<open>data.type === "report"\<close> make of an inbound
  message: a parse failure, a report carrying its \<open>metrics\<close>, or any other type.\<close>

datatype inbound = Unparseable | Report metrics_obj | OtherType

record coordinator =
  nodes :: "conn list"
  objs :: "conn \<Rightarrow> node"
  lastTotalClients :: rat
  totalClientsGauge :: rat
  dropRateGauge :: rat
  avgStartupGauge :: rat
  avgBitrateGauge :: rat
  avgBuffersGauge :: rat
  avgBufferTimeGauge :: rat
  nodeCpuGauge :: "string \<rightharpoonup> rat"
  nodeMemGauge :: "string \<rightharpoonup> rat"
  nodeClientsGauge :: "string \<rightharpoonup> rat"
  nodeFailuresGauge :: "string \<rightharpoonup> rat"
  sent :: "(conn \<times> outmsg) list"

definition FIB_SEQUENCE :: "nat list" where
  "FIB_SEQUENCE = [1, 2, 3, 5, 8, 13, 21, 34, 55, 89, 144, 233, 377, 500]"

definition RAMP_INTERVAL_MS :: int where
  "RAMP_INTERVAL_MS = 2 * 60 * 1000"

text \<open>The node objects of the registry, in array order.\<close>

definition live :: "coordinator \<Rightarrow> node list" where
  "live s = map (objs s) (nodes s)"

section \<open>Node registry\<close>

text \<open>Decimal digits of a number, as a template literal prints it.\<close>

fun show_nat :: "nat \<Rightarrow> string" where
  "show_nat n =
     (if n < 10 then [''0123456789'' ! n]
      else show_nat (n div 10) @ [''0123456789'' ! (n mod 10)])"

declare show_nat.simps [simp del]

text \<open>
  \<open>wss.on("connection")\<close>: the id is built from the current length of \<open>nodes\<close>; the new
  node object starts with \<open>lastReport\<close> at the admission time and an empty \<open>metrics\<close>
  object, is pushed at the end of the array, and a \<open>register\<close> message is sent.
\<close>

definition on_connection :: "conn \<Rightarrow> int \<Rightarrow> coordinator \<Rightarrow> coordinator" where
  "on_connection w now s =
     (let nid = ''node-'' @ show_nat (length (nodes s) + 1);
          node = \<lparr>nodeId = nid, ws = w, lastReport = now, metrics = empty_metrics\<rparr>
      in s\<lparr>objs := (objs s)(w := node),
           nodes := nodes s @ [w],
           sent := sent s @ [(w, Register nid)]\<rparr>)"

text \<open>\<open>ws.on("close")\<close>: \<open>nodes = nodes.filter((n) => n !== node)\<close>.\<close>

definition on_close :: "conn \<Rightarrow> coordinator \<Rightarrow> coordinator" where
  "on_close w s = s\<lparr>nodes := filter (\<lambda>r. r \<noteq> w) (nodes s)\<rparr>"

section \<open>Ramp scheduler\<close>

text \<open>
  The body of one ramp step over the array \<open>ns\<close>: \<open>perNode\<close> and \<open>rem\<close>, then
  \<open>forEach\<close> with the index. With an empty array the source computes
  \<open>Infinity\<close> and \<open>NaN\<close> and the \<open>forEach\<close> runs no iteration; here the two values
  are unused as well, since the map runs over the empty list.
\<close>

definition ramp_directives :: "nat \<Rightarrow> nat \<Rightarrow> node list \<Rightarrow> (conn \<times> outmsg) list" where
  "ramp_directives i tot ns =
     (let perNode = tot div length ns;
          rem = tot mod length ns
      in map (\<lambda>(idx, n). (ws n, Ramp (perNode + (if idx < rem then 1 else 0)) i))
           (enumerate 0 ns))"

text \<open>The \<open>clients\<close> field of a sent message (0 for \<open>register\<close>, which has none).\<close>

fun ramp_clients :: "conn \<times> outmsg \<Rightarrow> nat" where
  "ramp_clients (w, Ramp c i) = c"
| "ramp_clients (w, Register nid) = 0"

text \<open>
  One iteration of the \<open>for (const [i, total] of FIB_SEQUENCE.entries())\<close> loop of
  \<open>ramp\<close>, up to its \<open>await sleep\<close>: the state after the sends and the length of the
  sleep. With no node the iteration sleeps 5000 ms and executes \<open>continue\<close>.
\<close>

definition ramp_body :: "nat \<Rightarrow> nat \<Rightarrow> coordinator \<Rightarrow> coordinator \<times> int" where
  "ramp_body i tot s =
     (if length (nodes s) = 0 then (s, 5000)
      else (s\<lparr>sent := sent s @ ramp_directives i tot (live s)\<rparr>, RAMP_INTERVAL_MS))"

section \<open>Metrics aggregation\<close>

text \<open>\<open>v || 0\<close> on an optional number: \<open>undefined\<close> and \<open>0\<close> are falsy.\<close>

definition or0 :: "rat option \<Rightarrow> rat" where
  "or0 v = (case v of None \<Rightarrow> 0 | Some x \<Rightarrow> if x = 0 then 0 else x)"

text \<open>The local variables of \<open>updatePromMetrics\<close> that the \<open>forEach\<close> accumulates.\<close>

record locals =
  totalClients :: rat
  sumStartup :: rat
  sumBitrate :: rat
  sumBuffers :: rat
  sumBufTime :: rat

text \<open>
  The filter of \<open>updatePromMetrics\<close> on reports with numeric fields, where
  \<open>n.metrics.connected !== undefined\<close> is the presence of the field; \<open>active_js\<close> below
  is the filter on any JSON.
\<close>

definition active_nodes :: "int \<Rightarrow> coordinator \<Rightarrow> node list" where
  "active_nodes now s =
     filter (\<lambda>n. now - lastReport n < 30000 \<and> connected (metrics n) \<noteq> None) (live s)"

text \<open>The body of \<open>active.forEach\<close>: five sums and four labelled gauges.\<close>

definition forEach_active :: "node \<Rightarrow> locals \<times> coordinator \<Rightarrow> locals \<times> coordinator" where
  "forEach_active n acc =
     (let m = metrics n; l = fst acc; s = snd acc
      in (l\<lparr>totalClients := totalClients l + or0 (connected m),
            sumStartup := sumStartup l + or0 (avgStartup m),
            sumBitrate := sumBitrate l + or0 (avgBitrate m),
            sumBuffers := sumBuffers l + or0 (avgBuffers m),
            sumBufTime := sumBufTime l + or0 (avgBufferTime m)\<rparr>,
          s\<lparr>nodeCpuGauge := (nodeCpuGauge s)(nodeId n \<mapsto> or0 (cpu m)),
            nodeMemGauge := (nodeMemGauge s)(nodeId n \<mapsto> or0 (mem m)),
            nodeClientsGauge := (nodeClientsGauge s)(nodeId n \<mapsto> or0 (clients m)),
            nodeFailuresGauge := (nodeFailuresGauge s)(nodeId n \<mapsto> or0 (failures m))\<rparr>))"

text \<open>
  \<open>updatePromMetrics\<close>, with the clock reading \<open>now\<close> of \<open>Date.now()\<close>. The return on
  an empty active set comes before any write.
\<close>

definition updatePromMetrics :: "int \<Rightarrow> coordinator \<Rightarrow> coordinator" where
  "updatePromMetrics now s =
     (let active = active_nodes now s
      in if length active = 0 then s
         else
           let acc = fold forEach_active active
                 (\<lparr>totalClients = 0, sumStartup = 0, sumBitrate = 0, sumBuffers = 0,
                   sumBufTime = 0\<rparr>, s);
               l = fst acc; s1 = snd acc;
               avgStartup = sumStartup l / of_nat (length active);
               avgBitrate = sumBitrate l / of_nat (length active);
               avgBuffers = sumBuffers l / of_nat (length active);
               avgBufTime = sumBufTime l / of_nat (length active);
               dropRate =
                 (if lastTotalClients s1 > 0
                  then max 0 ((lastTotalClients s1 - totalClients l) / lastTotalClients s1)
                  else 0)
           in s1\<lparr>totalClientsGauge := totalClients l,
                 avgStartupGauge := avgStartup,
                 avgBitrateGauge := avgBitrate,
                 avgBuffersGauge := avgBuffers,
                 avgBufferTimeGauge := avgBufTime,
                 dropRateGauge := dropRate,
                 lastTotalClients := totalClients l\<rparr>)"

text \<open>
  \<open>ws.on("message")\<close> of the connection \<open>w\<close>. The handler closes over the node object
  of its connection and writes it whether or not \<open>nodes\<close> still refers to it. A parse
  failure is caught and logged; a message of another type is ignored. This is the
  handler on reports with numeric fields, for which \<open>updatePromMetrics\<close> does not
  throw; \<open>on_message_js\<close> below is the handler on any JSON, with the \<open>catch\<close>.
\<close>

definition on_message :: "conn \<Rightarrow> inbound \<Rightarrow> int \<Rightarrow> coordinator \<Rightarrow> coordinator" where
  "on_message w msg now s =
     (case msg of
        Report m \<Rightarrow>
          updatePromMetrics now
            (s\<lparr>objs := (objs s)(w := (objs s w)\<lparr>lastReport := now, metrics := m\<rparr>)\<rparr>)
      | Unparseable \<Rightarrow> s
      | OtherType \<Rightarrow> s)"

section \<open>The event loop\<close>

datatype event = Connection conn int | Message conn inbound int | Close conn

fun handle :: "event \<Rightarrow> coordinator \<Rightarrow> coordinator" where
  "handle (Connection w now) s = on_connection w now s"
| "handle (Message w msg now) s = on_message w msg now s"
| "handle (Close w) s = on_close w s"

definition run_events :: "event list \<Rightarrow> coordinator \<Rightarrow> coordinator" where
  "run_events evs s = fold handle evs s"

text \<open>
  The loop of \<open>ramp\<close> over the entries still to come. \<open>evs\<close> lists, sleep by sleep, the
  events handled while the loop sleeps. The result is the final state and, for each
  iteration, the entry index with the sleep it took.
\<close>

fun ramp_loop ::
  "(nat \<times> nat) list \<Rightarrow> event list list \<Rightarrow> coordinator \<Rightarrow> coordinator \<times> (nat \<times> int) list"
where
  "ramp_loop [] evs s = (s, [])"
| "ramp_loop ((i, tot) # rest) evs s =
     (let b = ramp_body i tot s;
          r = ramp_loop rest (tl evs)
                (run_events (case evs of [] \<Rightarrow> [] | e # _ \<Rightarrow> e) (fst b))
      in (fst r, (i, snd b) # snd r))"

definition ramp :: "event list list \<Rightarrow> coordinator \<Rightarrow> coordinator \<times> (nat \<times> int) list" where
  "ramp evs s = ramp_loop (enumerate 0 FIB_SEQUENCE) evs s"

text \<open>The state at program start: no node, every unlabelled gauge at 0, no label set.\<close>

definition init :: coordinator where
  "init = \<lparr>nodes = [],
     objs = (\<lambda>w. \<lparr>nodeId = [], ws = w, lastReport = 0, metrics = empty_metrics\<rparr>),
     lastTotalClients = 0, totalClientsGauge = 0, dropRateGauge = 0, avgStartupGauge = 0,
     avgBitrateGauge = 0, avgBuffersGauge = 0, avgBufferTimeGauge = 0,
     nodeCpuGauge = Map.empty, nodeMemGauge = Map.empty, nodeClientsGauge = Map.empty,
     nodeFailuresGauge = Map.empty, sent = []\<rparr>"

section \<open>The coordinator without metrics\<close>

text \<open>
  The second coordinator keeps \<open>{id, ws, clients}\<close> objects in \<open>nodes\<close> and a global
  \<open>currentStep\<close>; its close handler filters on \<open>n.ws !== ws\<close>.
\<close>

record cnode =
  cn_id :: string
  cn_ws :: conn
  cn_clients :: nat

record cluster =
  cl_nodes :: "cnode list"
  currentStep :: nat
  cl_sent :: "(conn \<times> outmsg) list"

definition cl_connection :: "conn \<Rightarrow> cluster \<Rightarrow> cluster" where
  "cl_connection w s =
     (let nid = ''node-'' @ show_nat (length (cl_nodes s) + 1)
      in s\<lparr>cl_nodes := cl_nodes s @ [\<lparr>cn_id = nid, cn_ws = w, cn_clients = 0\<rparr>],
           cl_sent := cl_sent s @ [(w, Register nid)]\<rparr>)"

definition cl_close :: "conn \<Rightarrow> cluster \<Rightarrow> cluster" where
  "cl_close w s = s\<lparr>cl_nodes := filter (\<lambda>n. cn_ws n \<noteq> w) (cl_nodes s)\<rparr>"

text \<open>
  The body of one iteration of \<open>rampCluster\<close>, which has no test on the number of
  nodes. The loop condition keeps \<open>currentStep\<close> inside \<open>FIB_SEQUENCE\<close>. With no
  node \<open>clientsPerNode\<close> is \<open>Infinity\<close> and \<open>remainder\<close> is \<open>NaN\<close> in the source, and
  neither is used.
\<close>

definition rampCluster_body :: "cluster \<Rightarrow> cluster" where
  "rampCluster_body s =
     (let totalClients = FIB_SEQUENCE ! currentStep s;
          clientsPerNode = totalClients div length (cl_nodes s);
          remainder = totalClients mod length (cl_nodes s);
          count = (\<lambda>idx. clientsPerNode + (if idx < remainder then 1 else 0))
      in s\<lparr>cl_nodes := map (\<lambda>(idx, node). node\<lparr>cn_clients := count idx\<rparr>)
                          (enumerate 0 (cl_nodes s)),
           cl_sent := cl_sent s @
             map (\<lambda>(idx, node). (cn_ws node, Ramp (count idx) (currentStep s)))
               (enumerate 0 (cl_nodes s))\<rparr>)"

datatype cl_event = ClConnection conn | ClClose conn

fun cl_handle :: "cl_event \<Rightarrow> cluster \<Rightarrow> cluster" where
  "cl_handle (ClConnection w) s = cl_connection w s"
| "cl_handle (ClClose w) s = cl_close w s"

definition cl_run_events :: "cl_event list \<Rightarrow> cluster \<Rightarrow> cluster" where
  "cl_run_events evs s = fold cl_handle evs s"

text \<open>
  \<open>for (currentStep = 0; currentStep < FIB_SEQUENCE.length; currentStep++)\<close>, from the
  loop test on: body, sleep (during which the first list of \<open>evs\<close> is handled), increment.
\<close>

function rampCluster_loop :: "cl_event list list \<Rightarrow> cluster \<Rightarrow> cluster" where
  "rampCluster_loop evs s =
     (if currentStep s < length FIB_SEQUENCE
      then
        (let s1 = cl_run_events (case evs of [] \<Rightarrow> [] | e # _ \<Rightarrow> e) (rampCluster_body s)
         in rampCluster_loop (tl evs) (s1\<lparr>currentStep := currentStep s1 + 1\<rparr>))
      else s)"
  by pat_completeness auto
termination
proof (relation "measure (\<lambda>(evs, s). length FIB_SEQUENCE - currentStep s)")
  show "wf (measure (\<lambda>(evs, s). length FIB_SEQUENCE - currentStep s))"
    by simp
next
  fix evs :: "cl_event list list" and s s1 :: cluster
  assume lt: "currentStep s < length FIB_SEQUENCE"
    and s1: "s1 = cl_run_events (case evs of [] \<Rightarrow> [] | e # _ \<Rightarrow> e) (rampCluster_body s)"
  have keep: "currentStep (fold cl_handle es t) = currentStep t" for es t
  proof (induction es arbitrary: t)
    case Nil
    show ?case by simp
  next
    case (Cons e es)
    have "currentStep (cl_handle e t) = currentStep t"
      by (cases e) (simp_all add: cl_connection_def cl_close_def Let_def)
    with Cons.IH [of "cl_handle e t"] show ?case by simp
  qed
  have "currentStep s1 = currentStep s"
    unfolding s1 cl_run_events_def keep by (simp add: rampCluster_body_def Let_def)
  with lt show "((tl evs, s1\<lparr>currentStep := currentStep s1 + 1\<rparr>), evs, s)
      \<in> measure (\<lambda>(evs, s). length FIB_SEQUENCE - currentStep s)"
    by simp
qed

declare rampCluster_loop.simps [simp del]

definition rampCluster :: "cl_event list list \<Rightarrow> cluster \<Rightarrow> cluster" where
  "rampCluster evs s = rampCluster_loop evs (s\<lparr>currentStep := 0\<rparr>)"

definition cl_init :: cluster where
  "cl_init = \<lparr>cl_nodes = [], currentStep = 0, cl_sent = []\<rparr>"

section \<open>Reports as parsed JSON\<close>

text \<open>
  The message handler stores \<open>data.metrics\<close> as \<open>JSON.parse\<close> returned it, and the
  filter of \<open>updatePromMetrics\<close> reads \<open>n.metrics.connected\<close> from whatever was
  stored. This section models these two steps on arbitrary JSON; the record
  \<open>metrics_obj\<close> above is the case of a \<open>metrics\<close> object whose fields are numbers.
\<close>

datatype json =
  JNull | JBool bool | JNum rat | JStr string | JArr "json list" | JObj "(string \<times> json) list"

datatype js_error = TypeError

text \<open>
  Reading the property \<open>k\<close> of a value that is \<open>undefined\<close> (\<open>None\<close>) or came from
  \<open>JSON.parse\<close>. On \<open>undefined\<close> and \<open>null\<close> the read throws. An object gives the value of
  its last member named \<open>k\<close>, or \<open>undefined\<close>. Numbers, strings, booleans and arrays have
  none of the properties read here (\<open>type\<close>, \<open>metrics\<close>, \<open>connected\<close>).
\<close>

fun get_prop :: "json option \<Rightarrow> string \<Rightarrow> js_error + json option" where
  "get_prop None k = Inl TypeError"
| "get_prop (Some JNull) k = Inl TypeError"
| "get_prop (Some (JObj kvs)) k = Inr (map_of (rev kvs) k)"
| "get_prop (Some v) k = Inr None"

text \<open>A node object whose \<open>metrics\<close> is what the handler stored.\<close>

record node_js =
  nodeId_js :: string
  ws_js :: conn
  lastReport_js :: int
  metrics_js :: "json option"

text \<open>
  \<open>nodes.filter((n) => Date.now() - n.lastReport < 30000 && n.metrics.connected !==
  undefined)\<close>: the nodes are tested in array order, \<open>&&\<close> reads \<open>n.metrics\<close> only for
  a node whose report is less than 30000 ms old, and a throwing read ends the filter.
\<close>

fun active_js :: "int \<Rightarrow> node_js list \<Rightarrow> js_error + node_js list" where
  "active_js now [] = Inr []"
| "active_js now (n # ns) =
     (if now - lastReport_js n < 30000
      then (case get_prop (metrics_js n) ''connected'' of
              Inl e \<Rightarrow> Inl e
            | Inr v \<Rightarrow>
                (case active_js now ns of
                   Inl e \<Rightarrow> Inl e
                 | Inr act \<Rightarrow> Inr (if v \<noteq> None then n # act else act)))
      else active_js now ns)"

text \<open>\<open>wss.on("connection")\<close> on such a registry: the new node starts with \<open>metrics: {}\<close>.\<close>

definition connection_js :: "conn \<Rightarrow> int \<Rightarrow> node_js list \<Rightarrow> node_js list" where
  "connection_js w now ns =
     ns @ [\<lparr>nodeId_js = ''node-'' @ show_nat (length ns + 1), ws_js = w,
            lastReport_js = now, metrics_js = Some (JObj [])\<rparr>]"

text \<open>
  \<open>ws.on("message")\<close> of the connection \<open>w\<close>, up to the filter of \<open>updatePromMetrics\<close>.
  \<open>data\<close> is the result of \<open>JSON.parse\<close>, \<open>None\<close> when it throws. The result is the
  registry after the handler and, when \<open>updatePromMetrics\<close> was called, what its filter
  returned or threw. Every exception ends in the \<open>catch\<close> of the handler, after the two
  assignments to the node when it comes from the filter.
\<close>

definition on_message_js ::
  "conn \<Rightarrow> json option \<Rightarrow> int \<Rightarrow> node_js list
     \<Rightarrow> node_js list \<times> (js_error + node_js list) option"
where
  "on_message_js w data now ns =
     (case data of
        None \<Rightarrow> (ns, None)
      | Some d \<Rightarrow>
          (case get_prop (Some d) ''type'' of
             Inl e \<Rightarrow> (ns, None)
           | Inr t \<Rightarrow>
               if t = Some (JStr ''report'')
               then (case get_prop (Some d) ''metrics'' of
                       Inl e \<Rightarrow> (ns, None)
                     | Inr m \<Rightarrow>
                         (let ns' = map (\<lambda>n. if ws_js n = w
                                    then n\<lparr>lastReport_js := now, metrics_js := m\<rparr> else n) ns
                          in (ns', Some (active_js now ns'))))
               else (ns, None)))"

text \<open>What \<open>JSON.parse\<close> returns for the message \<open>{"type": "report", "metrics": m}\<close>.\<close>

definition report_js :: "json \<Rightarrow> json option" where
  "report_js m = Some (JObj [(''type'', JStr ''report''), (''metrics'', m)])"

text \<open>A node with a \<open>metrics_obj\<close> as the node object the handler would hold for it.\<close>

definition field_js :: "string \<Rightarrow> rat option \<Rightarrow> (string \<times> json) list" where
  "field_js k v = (case v of None \<Rightarrow> [] | Some x \<Rightarrow> [(k, JNum x)])"

definition json_of_metrics :: "metrics_obj \<Rightarrow> json" where
  "json_of_metrics m =
     JObj (field_js ''connected'' (connected m) @ field_js ''avgStartup'' (avgStartup m)
       @ field_js ''avgBitrate'' (avgBitrate m) @ field_js ''avgBuffers'' (avgBuffers m)
       @ field_js ''avgBufferTime'' (avgBufferTime m) @ field_js ''cpu'' (cpu m)
       @ field_js ''mem'' (mem m) @ field_js ''clients'' (clients m)
       @ field_js ''failures'' (failures m))"

definition node_to_js :: "node \<Rightarrow> node_js" where
  "node_to_js n =
     \<lparr>nodeId_js = nodeId n, ws_js = ws n, lastReport_js = lastReport n,
      metrics_js = Some (json_of_metrics (metrics n))\<rparr>"

section \<open>Closed forms used in the proofs\<close>

text \<open>
  The two definitions below are not part of the program: they state what the
  \<open>forEach\<close> loop of \<open>updatePromMetrics\<close> leaves in its local variables and in the
  labelled gauges, and are proved equal to the loop in \<open>fold_forEach_active\<close>.
\<close>

definition label_writes :: "node list \<Rightarrow> coordinator \<Rightarrow> coordinator" where
  "label_writes ns s =
     s\<lparr>nodeCpuGauge := fold (\<lambda>n g. g(nodeId n \<mapsto> or0 (cpu (metrics n)))) ns (nodeCpuGauge s),
       nodeMemGauge := fold (\<lambda>n g. g(nodeId n \<mapsto> or0 (mem (metrics n)))) ns (nodeMemGauge s),
       nodeClientsGauge :=
         fold (\<lambda>n g. g(nodeId n \<mapsto> or0 (clients (metrics n)))) ns (nodeClientsGauge s),
       nodeFailuresGauge :=
         fold (\<lambda>n g. g(nodeId n \<mapsto> or0 (failures (metrics n)))) ns (nodeFailuresGauge s)\<rparr>"

definition field_sums :: "node list \<Rightarrow> locals \<Rightarrow> locals" where
  "field_sums ns l =
     \<lparr>totalClients = totalClients l + (\<Sum>n\<leftarrow>ns. or0 (connected (metrics n))),
      sumStartup = sumStartup l + (\<Sum>n\<leftarrow>ns. or0 (avgStartup (metrics n))),
      sumBitrate = sumBitrate l + (\<Sum>n\<leftarrow>ns. or0 (avgBitrate (metrics n))),
      sumBuffers = sumBuffers l + (\<Sum>n\<leftarrow>ns. or0 (avgBuffers (metrics n))),
      sumBufTime = sumBufTime l + (\<Sum>n\<leftarrow>ns. or0 (avgBufferTime (metrics n)))\<rparr>"

section \<open>Scenarios\<close>

text \<open>Three nodes admitted at time 0, for each coordinator; the second one stands at the
  step of index 4 (target 8).\<close>

definition three_nodes :: coordinator where
  "three_nodes = run_events [Connection 1 0, Connection 2 0, Connection 3 0] init"

definition cl_three_nodes :: cluster where
  "cl_three_nodes =
     (cl_run_events [ClConnection 1, ClConnection 2, ClConnection 3] cl_init)
       \<lparr>currentStep := 4\<rparr>"

text \<open>
  Two nodes report 10 and 5 connected clients; node 1 reports again at 20 s, node 2 stays
  silent after its report at 2 s.
\<close>

definition rep :: "rat \<Rightarrow> metrics_obj" where
  "rep c = empty_metrics\<lparr>connected := Some c\<rparr>"

definition two_reporting :: coordinator where
  "two_reporting = run_events
     [Connection 1 0, Connection 2 0, Message 1 (Report (rep 10)) 1000,
      Message 2 (Report (rep 5)) 2000, Message 1 (Report (rep 10)) 20000] init"

text \<open>
  Two nodes with quality figures; the second report has no \<open>avgBitrate\<close> and no
  \<open>avgBufferTime\<close>.
\<close>

definition qoe_reports :: coordinator where
  "qoe_reports = run_events
     [Connection 1 0, Connection 2 0,
      Message 1 (Report (empty_metrics\<lparr>connected := Some 10, avgStartup := Some 100,
         avgBitrate := Some 2000, avgBuffers := Some 1, avgBufferTime := Some 40\<rparr>)) 1000,
      Message 2 (Report (empty_metrics\<lparr>connected := Some 5, avgStartup := Some 300,
         avgBuffers := Some 2\<rparr>)) 2000] init"


text \<open>
  One node is admitted before the ramp starts and disconnects during the sleep after the
  step of index 3; a second node connects during the sleep that follows. The list gives
  the events of each sleep, for either coordinator.
\<close>

definition stall_start :: coordinator where
  "stall_start = run_events [Connection 1 0] init"

definition stall_events :: "event list list" where
  "stall_events = [[], [], [], [Close 1], [Connection 2 485000]]"

definition cl_stall_start :: cluster where
  "cl_stall_start = cl_run_events [ClConnection 1] cl_init"

definition cl_stall_events :: "cl_event list list" where
  "cl_stall_events = [[], [], [], [ClClose 1], [ClConnection 2]]"

text \<open>Two admissions, the first node disconnects, a third admission.\<close>

definition reuse_events :: "event list" where
  "reuse_events = [Connection 1 0, Connection 2 10, Close 1, Connection 3 20]"

definition cl_reuse_events :: "cl_event list" where
  "cl_reuse_events = [ClConnection 1, ClConnection 2, ClClose 1, ClConnection 3]"

text \<open>
  A node reports a CPU load and disconnects; another node is admitted afterwards and
  reports its own load.
\<close>

definition res :: "rat \<Rightarrow> rat \<Rightarrow> metrics_obj" where
  "res c l = empty_metrics\<lparr>connected := Some c, cpu := Some l\<rparr>"

definition gauge_events :: "event list" where
  "gauge_events = [Connection 1 0, Message 1 (Report (res 4 (1 / 2))) 1000, Close 1]"

definition gauge_events_after :: "event list" where
  "gauge_events_after = [Connection 2 2000, Message 2 (Report (res 7 (9 / 10))) 3000]"

text \<open>
  Report messages as parsed JSON. In \<open>null_count\<close> the only node has reported
  \<open>{"connected": null}\<close>. In \<open>mixed_registry\<close> node 1 has reported
  \<open>{"connected": null}\<close> at 40 s, node 2 \<open>{"connected": 5}\<close> at 2 s and node 3
  \<open>{"connected": 7}\<close> at 40.5 s. In \<open>no_metrics\<close> node 1 has reported
  \<open>{"connected": 10}\<close> and node 2 has then sent a report message without \<open>metrics\<close>.
\<close>

definition null_count :: "node_js list" where
  "null_count =
     fst (on_message_js 1 (report_js (JObj [(''connected'', JNull)])) 1000
       (connection_js 1 0 []))"

definition mixed_registry :: "node_js list" where
  "mixed_registry =
     fst (on_message_js 3 (report_js (JObj [(''connected'', JNum 7)])) 40500
       (fst (on_message_js 1 (report_js (JObj [(''connected'', JNull)])) 40000
          (fst (on_message_js 2 (report_js (JObj [(''connected'', JNum 5)])) 2000
             (connection_js 3 0 (connection_js 2 0 (connection_js 1 0 []))))))))"

definition no_metrics :: "node_js list" where
  "no_metrics =
     fst (on_message_js 2 (Some (JObj [(''type'', JStr ''report'')])) 2000
       (fst (on_message_js 1 (report_js (JObj [(''connected'', JNum 10)])) 1000
          (connection_js 2 0 (connection_js 1 0 [])))))"

section \<open>Partition of a ramp target\<close>

lemma sum_indicator_upt:
  "r \<le> n \<Longrightarrow> (\<Sum>idx\<leftarrow>[0..<n]. if idx < r then 1 else 0) = (r::nat)"
proof -
  assume le: "r \<le> n"
  have "(\<Sum>idx\<leftarrow>[0..<n]. if idx < r then 1 else 0) = (\<Sum>idx\<in>{0..<n}. if idx < r then 1 else (0::nat))"
    by (simp add: interv_sum_list_conv_sum_set_nat)
  also have "\<dots> = card ({0..<n} \<inter> {idx. idx < r})"
    by (simp add: sum.If_cases)
  also have "{0..<n} \<inter> {idx. idx < r} = {0..<r}"
    using le by auto
  finally show ?thesis by simp
qed

lemma sum_base_rem:
  assumes "0 < n"
  shows "(\<Sum>idx\<leftarrow>[0..<n]. t div n + (if idx < t mod n then 1 else 0)) = (t::nat)"
proof -
  have "(\<Sum>idx\<leftarrow>[0..<n]. t div n + (if idx < t mod n then 1 else 0))
      = (\<Sum>idx\<leftarrow>[0..<n]. t div n) + (\<Sum>idx\<leftarrow>[0..<n]. if idx < t mod n then 1 else 0)"
    by (simp add: sum_list_addf)
  also have "(\<Sum>idx\<leftarrow>[0..<n]. t div n) = n * (t div n)"
    by (simp add: sum_list_triv)
  also have "(\<Sum>idx\<leftarrow>[0..<n]. if idx < t mod n then 1 else 0) = t mod n"
    using assms by (intro sum_indicator_upt) (simp add: less_imp_le)
  finally show ?thesis by simp
qed

lemma ramp_directives_nth:
  "idx < length ns \<Longrightarrow>
     ramp_directives i t ns ! idx =
       (ws (ns ! idx), Ramp (t div length ns + (if idx < t mod length ns then 1 else 0)) i)"
  by (simp add: ramp_directives_def Let_def nth_enumerate_eq)

lemma ramp_directives_sum:
  "ns \<noteq> [] \<Longrightarrow> sum_list (map ramp_clients (ramp_directives i t ns)) = t"
proof -
  assume "ns \<noteq> []"
  then have pos: "0 < length ns" by simp
  have "map ramp_clients (ramp_directives i t ns)
      = map (\<lambda>idx. t div length ns + (if idx < t mod length ns then 1 else 0)) [0..<length ns]"
    unfolding ramp_directives_def Let_def
    by (rule nth_equalityI) (simp_all add: nth_enumerate_eq)
  then show ?thesis using sum_base_rem [OF pos, of t] by simp
qed

lemma rampCluster_body_nodes:
  "map cn_clients (cl_nodes (rampCluster_body c)) =
     map (\<lambda>idx. FIB_SEQUENCE ! currentStep c div length (cl_nodes c)
            + (if idx < FIB_SEQUENCE ! currentStep c mod length (cl_nodes c) then 1 else 0))
       [0..<length (cl_nodes c)]"
  unfolding rampCluster_body_def Let_def
  by (rule nth_equalityI) (simp_all add: nth_enumerate_eq)

lemma rampCluster_body_sent:
  "cl_sent (rampCluster_body c) = cl_sent c @
     map (\<lambda>idx. (cn_ws (cl_nodes c ! idx),
            Ramp (FIB_SEQUENCE ! currentStep c div length (cl_nodes c)
            + (if idx < FIB_SEQUENCE ! currentStep c mod length (cl_nodes c) then 1 else 0))
             (currentStep c)))
       [0..<length (cl_nodes c)]"
  unfolding rampCluster_body_def Let_def
  by simp (rule nth_equalityI, simp_all add: nth_enumerate_eq)

text \<open>
  Claim C1. For a ramp step with target \<open>t\<close> over a registry of \<open>N \<ge> 1\<close> nodes, the
  targets sent (\<open>ramp\<close>) and stored and sent (\<open>rampCluster\<close>) are one per node in array
  order, they sum to the target, and the node at index \<open>idx\<close> gets
  \<open>t div N + 1\<close> if \<open>idx < t mod N\<close> and \<open>t div N\<close> otherwise: exactly the first
  \<open>t mod N\<close> nodes get the larger value.
\<close>

theorem ramp_partition:
  assumes "nodes s \<noteq> []" and "cl_nodes c \<noteq> []"
  shows "fst (ramp_body i t s) = s\<lparr>sent := sent s @ ramp_directives i t (live s)\<rparr>
    \<and> length (ramp_directives i t (live s)) = length (nodes s)
    \<and> sum_list (map ramp_clients (ramp_directives i t (live s))) = t
    \<and> (\<forall>idx < length (nodes s).
          ramp_directives i t (live s) ! idx =
            (ws (live s ! idx),
             Ramp (if idx < t mod length (nodes s) then t div length (nodes s) + 1
                   else t div length (nodes s)) i))
    \<and> length (cl_nodes (rampCluster_body c)) = length (cl_nodes c)
    \<and> sum_list (map cn_clients (cl_nodes (rampCluster_body c))) = FIB_SEQUENCE ! currentStep c
    \<and> (\<forall>idx < length (cl_nodes c).
          cn_clients (cl_nodes (rampCluster_body c) ! idx) =
            (if idx < FIB_SEQUENCE ! currentStep c mod length (cl_nodes c)
             then FIB_SEQUENCE ! currentStep c div length (cl_nodes c) + 1
             else FIB_SEQUENCE ! currentStep c div length (cl_nodes c))
          \<and> cl_sent (rampCluster_body c) ! (length (cl_sent c) + idx) =
            (cn_ws (cl_nodes c ! idx),
             Ramp (cn_clients (cl_nodes (rampCluster_body c) ! idx)) (currentStep c)))"
proof -
  have ne: "live s \<noteq> []" and len: "length (live s) = length (nodes s)"
    using assms by (simp_all add: live_def)
  have a: "fst (ramp_body i t s) = s\<lparr>sent := sent s @ ramp_directives i t (live s)\<rparr>"
    using assms by (simp add: ramp_body_def)
  have b: "length (ramp_directives i t (live s)) = length (nodes s)"
    by (simp add: ramp_directives_def Let_def live_def)
  have c: "sum_list (map ramp_clients (ramp_directives i t (live s))) = t"
    by (rule ramp_directives_sum [OF ne])
  have d: "\<forall>idx < length (nodes s).
          ramp_directives i t (live s) ! idx =
            (ws (live s ! idx),
             Ramp (if idx < t mod length (nodes s) then t div length (nodes s) + 1
                   else t div length (nodes s)) i)"
    using ramp_directives_nth [of _ "live s" i t] len by simp
  have pos: "0 < length (cl_nodes c)" using assms by simp
  have e: "length (cl_nodes (rampCluster_body c)) = length (cl_nodes c)"
    by (simp add: rampCluster_body_def Let_def)
  have f: "sum_list (map cn_clients (cl_nodes (rampCluster_body c))) = FIB_SEQUENCE ! currentStep c"
    unfolding rampCluster_body_nodes by (rule sum_base_rem [OF pos])
  have g1: "cn_clients (cl_nodes (rampCluster_body c) ! idx) =
            (if idx < FIB_SEQUENCE ! currentStep c mod length (cl_nodes c)
             then FIB_SEQUENCE ! currentStep c div length (cl_nodes c) + 1
             else FIB_SEQUENCE ! currentStep c div length (cl_nodes c))"
    if "idx < length (cl_nodes c)" for idx
  proof -
    have "cn_clients (cl_nodes (rampCluster_body c) ! idx)
        = map cn_clients (cl_nodes (rampCluster_body c)) ! idx"
      using that e by simp
    then show ?thesis unfolding rampCluster_body_nodes using that by simp
  qed
  have g2: "cl_sent (rampCluster_body c) ! (length (cl_sent c) + idx) =
            (cn_ws (cl_nodes c ! idx),
             Ramp (cn_clients (cl_nodes (rampCluster_body c) ! idx)) (currentStep c))"
    if "idx < length (cl_nodes c)" for idx
    using that by (simp add: rampCluster_body_sent g1 [OF that])
  from a b c d e f g1 g2 show ?thesis by blast
qed

theorem ramp_partition_witness:
  "nodes three_nodes \<noteq> [] \<and> cl_nodes cl_three_nodes \<noteq> []
    \<and> sum_list (map ramp_clients (ramp_directives 4 8 (live three_nodes))) = 8
    \<and> map ramp_clients (ramp_directives 4 8 (live three_nodes)) = [3, 3, 2]
    \<and> sum_list (map cn_clients (cl_nodes (rampCluster_body cl_three_nodes))) = 8
    \<and> map cn_clients (cl_nodes (rampCluster_body cl_three_nodes)) = [3, 3, 2]"
proof -
  have h1: "nodes three_nodes \<noteq> []"
    by (simp add: three_nodes_def run_events_def on_connection_def init_def Let_def)
  have h2: "cl_nodes cl_three_nodes \<noteq> []"
    by (simp add: cl_three_nodes_def cl_run_events_def cl_connection_def cl_init_def Let_def)
  have fib: "FIB_SEQUENCE ! currentStep cl_three_nodes = 8"
    by (simp add: cl_three_nodes_def FIB_SEQUENCE_def)
  have l: "map ramp_clients (ramp_directives 4 8 (live three_nodes)) = [3, 3, 2]"
    by (simp add: three_nodes_def run_events_def on_connection_def init_def Let_def
        live_def ramp_directives_def enumerate_eq_zip upt_rec)
  have r: "map cn_clients (cl_nodes (rampCluster_body cl_three_nodes)) = [3, 3, 2]"
    by (simp add: cl_three_nodes_def cl_run_events_def cl_connection_def cl_init_def Let_def
        rampCluster_body_def FIB_SEQUENCE_def enumerate_eq_zip upt_rec)
  from ramp_partition [OF h1 h2, of 4 8] h1 h2 fib l r show ?thesis by simp
qed

section \<open>A ramp step that finds no node\<close>

text \<open>An iteration that finds no node is followed by the iteration of the next entry.\<close>

lemma ramp_loop_no_nodes:
  "nodes s = [] \<Longrightarrow>
     ramp_loop ((i, t) # rest) evs s =
       (fst (ramp_loop rest (tl evs) (run_events (case evs of [] \<Rightarrow> [] | e # _ \<Rightarrow> e) s)),
        (i, 5000) #
        snd (ramp_loop rest (tl evs) (run_events (case evs of [] \<Rightarrow> [] | e # _ \<Rightarrow> e) s)))"
  by (simp add: ramp_body_def Let_def)

text \<open>
  Claim C2 says that a step which becomes due while the registry is empty is retried
  after a short wait and never skipped. The loop of \<open>ramp\<close> waits 5000 ms and then
  executes \<open>continue\<close>, which takes the next entry of \<open>FIB_SEQUENCE\<close>; \<open>rampCluster\<close>
  has no test at all. In the scenario the registry is empty when the step of index 4
  (target 8) is due and a node is present again 5 s later: the iteration of index 4
  sleeps 5000 ms, the next iteration is the one of index 5, and no directive with step 4
  is ever sent by either coordinator. With no node during the whole run every iteration
  sleeps 5000 ms and the ramp ends without having sent anything.
\<close>

theorem ramp_skips_step:
  "nodes (fst (ramp_loop (take 4 (enumerate 0 FIB_SEQUENCE)) stall_events stall_start)) = []
   \<and> snd (ramp stall_events stall_start) =
        [(0, 120000), (1, 120000), (2, 120000), (3, 120000), (4, 5000), (5, 120000),
         (6, 120000), (7, 120000), (8, 120000), (9, 120000), (10, 120000), (11, 120000),
         (12, 120000), (13, 120000)]
   \<and> sent (fst (ramp stall_events stall_start)) =
        [(1, Register ''node-1''), (1, Ramp 1 0), (1, Ramp 2 1), (1, Ramp 3 2),
         (1, Ramp 5 3), (2, Register ''node-1''), (2, Ramp 13 5), (2, Ramp 21 6),
         (2, Ramp 34 7), (2, Ramp 55 8), (2, Ramp 89 9), (2, Ramp 144 10),
         (2, Ramp 233 11), (2, Ramp 377 12), (2, Ramp 500 13)]
   \<and> cl_sent (rampCluster cl_stall_events cl_stall_start) =
        [(1, Register ''node-1''), (1, Ramp 1 0), (1, Ramp 2 1), (1, Ramp 3 2),
         (1, Ramp 5 3), (2, Register ''node-1''), (2, Ramp 13 5), (2, Ramp 21 6),
         (2, Ramp 34 7), (2, Ramp 55 8), (2, Ramp 89 9), (2, Ramp 144 10),
         (2, Ramp 233 11), (2, Ramp 377 12), (2, Ramp 500 13)]
   \<and> snd (ramp [] init) =
        [(0, 5000), (1, 5000), (2, 5000), (3, 5000), (4, 5000), (5, 5000), (6, 5000),
         (7, 5000), (8, 5000), (9, 5000), (10, 5000), (11, 5000), (12, 5000), (13, 5000)]
   \<and> sent (fst (ramp [] init)) = []"
  by code_simp

section \<open>Node identifiers\<close>

text \<open>
  Claim C3 says that an admission never assigns an identifier that an earlier node of the
  run had. Both connection handlers build the identifier from \<open>nodes.length + 1\<close>, and
  the close handlers shorten \<open>nodes\<close>. After two admissions and the disconnect of the
  first node, the third admission is given \<open>node-2\<close>, the identifier of the second
  node, which is still in the registry.
\<close>

theorem node_id_reused:
  "sent (run_events reuse_events init) =
     [(1, Register ''node-1''), (2, Register ''node-2''), (3, Register ''node-2'')]
   \<and> map ws (live (run_events reuse_events init)) = [2, 3]
   \<and> map nodeId (live (run_events reuse_events init)) = [''node-2'', ''node-2'']
   \<and> cl_sent (cl_run_events cl_reuse_events cl_init) =
     [(1, Register ''node-1''), (2, Register ''node-2''), (3, Register ''node-2'')]
   \<and> map cn_id (cl_nodes (cl_run_events cl_reuse_events cl_init)) = [''node-2'', ''node-2'']"
  by code_simp

section \<open>The aggregation loop in closed form\<close>

lemma fold_forEach_active:
  "fold forEach_active ns (l, s) = (field_sums ns l, label_writes ns s)"
proof (induction ns arbitrary: l s)
  case Nil
  show ?case by (simp add: field_sums_def label_writes_def)
next
  case (Cons n ns)
  have step: "forEach_active n (l, s) = (field_sums [n] l, label_writes [n] s)"
    by (simp add: forEach_active_def field_sums_def label_writes_def Let_def)
  have l: "field_sums ns (field_sums [n] l) = field_sums (n # ns) l"
    by (simp add: field_sums_def add.assoc)
  have s: "label_writes ns (label_writes [n] s) = label_writes (n # ns) s"
    by (simp add: label_writes_def)
  show ?case by (simp add: step Cons.IH l s)
qed

lemma updatePromMetrics_unfold:
  "updatePromMetrics now s =
     (let active = active_nodes now s;
          l = field_sums active \<lparr>totalClients = 0, sumStartup = 0, sumBitrate = 0,
                sumBuffers = 0, sumBufTime = 0\<rparr>
      in if active = [] then s
         else (label_writes active s)
           \<lparr>totalClientsGauge := totalClients l,
            avgStartupGauge := sumStartup l / of_nat (length active),
            avgBitrateGauge := sumBitrate l / of_nat (length active),
            avgBuffersGauge := sumBuffers l / of_nat (length active),
            avgBufferTimeGauge := sumBufTime l / of_nat (length active),
            dropRateGauge :=
              (if lastTotalClients s > 0
               then max 0 ((lastTotalClients s - totalClients l) / lastTotalClients s)
               else 0),
            lastTotalClients := totalClients l\<rparr>)"
  by (simp add: updatePromMetrics_def Let_def fold_forEach_active label_writes_def)

section \<open>Drop rate\<close>

text \<open>
  Claim C4. In an aggregation cycle with a non-empty active set, \<open>totalClients\<close> is the
  sum of the active nodes' \<open>connected\<close> values, the drop rate written is
  \<open>max 0 ((previous - totalClients) / previous)\<close> when the previous total (the value
  of \<open>lastTotalClients\<close> before the call) is positive and 0 otherwise; it is 0 whenever
  \<open>totalClients\<close> is at least the previous total and whenever the previous total is 0;
  and after the call \<open>lastTotalClients\<close> holds the new \<open>totalClients\<close>.
\<close>

theorem drop_rate:
  assumes "active_nodes now s \<noteq> []"
  shows "totalClientsGauge (updatePromMetrics now s) =
           (\<Sum>n\<leftarrow>active_nodes now s. or0 (connected (metrics n)))
    \<and> dropRateGauge (updatePromMetrics now s) =
          (if lastTotalClients s > 0
           then max 0 ((lastTotalClients s - totalClientsGauge (updatePromMetrics now s))
                        / lastTotalClients s)
           else 0)
    \<and> (lastTotalClients s \<le> totalClientsGauge (updatePromMetrics now s)
          \<longrightarrow> dropRateGauge (updatePromMetrics now s) = 0)
    \<and> (lastTotalClients s = 0 \<longrightarrow> dropRateGauge (updatePromMetrics now s) = 0)
    \<and> lastTotalClients (updatePromMetrics now s) = totalClientsGauge (updatePromMetrics now s)"
proof -
  let ?u = "updatePromMetrics now s"
  have tot: "totalClientsGauge ?u = (\<Sum>n\<leftarrow>active_nodes now s. or0 (connected (metrics n)))"
    using assms by (simp add: updatePromMetrics_unfold Let_def field_sums_def label_writes_def)
  have last: "lastTotalClients ?u = totalClientsGauge ?u"
    using assms by (simp add: updatePromMetrics_unfold Let_def label_writes_def)
  have rate: "dropRateGauge ?u =
          (if lastTotalClients s > 0
           then max 0 ((lastTotalClients s - totalClientsGauge ?u) / lastTotalClients s)
           else 0)"
    using assms by (simp add: updatePromMetrics_unfold Let_def label_writes_def)
  have grow: "dropRateGauge ?u = 0" if "lastTotalClients s \<le> totalClientsGauge ?u"
  proof (cases "lastTotalClients s > 0")
    case True
    with that have "(lastTotalClients s - totalClientsGauge ?u) / lastTotalClients s \<le> 0"
      by (simp add: divide_le_0_iff)
    with True show ?thesis unfolding rate by (simp add: max_def)
  next
    case False
    then show ?thesis unfolding rate by simp
  qed
  have zero: "dropRateGauge ?u = 0" if "lastTotalClients s = 0"
    unfolding rate using that by simp
  from tot last rate grow zero show ?thesis by blast
qed

theorem drop_rate_witness:
  "active_nodes 33000 two_reporting \<noteq> []
    \<and> lastTotalClients two_reporting = 15
    \<and> totalClientsGauge (updatePromMetrics 33000 two_reporting) = 10
    \<and> dropRateGauge (updatePromMetrics 33000 two_reporting) = 1 / 3
    \<and> lastTotalClients (updatePromMetrics 33000 two_reporting) = 10"
proof -
  have act: "active_nodes 33000 two_reporting \<noteq> []"
    by code_simp
  have prev: "lastTotalClients two_reporting = 15"
    by code_simp
  have tot: "(\<Sum>n\<leftarrow>active_nodes 33000 two_reporting. or0 (connected (metrics n))) = 10"
    by code_simp
  from drop_rate [OF act] act prev tot show ?thesis
    by simp
qed

section \<open>Aggregation over an empty active set\<close>

text \<open>
  Claim C5. When the active set of an aggregation is empty, the call returns the state it
  was given: every cluster gauge, every labelled gauge and \<open>lastTotalClients\<close> keep
  their values. The return precedes the loop and the four divisions by
  \<open>active.length\<close>, so no average is computed in that case.
\<close>

theorem empty_active_unchanged:
  assumes "active_nodes now s = []"
  shows "updatePromMetrics now s = s"
  using assms by (simp add: updatePromMetrics_def)

theorem empty_active_unchanged_witness:
  "active_nodes 100000 two_reporting = []
    \<and> updatePromMetrics 100000 two_reporting = two_reporting
    \<and> totalClientsGauge (updatePromMetrics 100000 two_reporting) = 15"
proof -
  have act: "active_nodes 100000 two_reporting = []"
    by code_simp
  have tot: "totalClientsGauge two_reporting = 15"
    by code_simp
  from empty_active_unchanged [OF act] act tot show ?thesis
    by simp
qed

section \<open>The active set\<close>

lemma active_nodes_restrict:
  "active_nodes now (s\<lparr>nodes := filter (\<lambda>r. now - lastReport (objs s r) < 30000
        \<and> connected (metrics (objs s r)) \<noteq> None) (nodes s)\<rparr>) = active_nodes now s"
  by (simp add: active_nodes_def live_def filter_map comp_def)

lemma active_js_Inr:
  "active_js now ns = Inr act \<Longrightarrow>
     act = filter (\<lambda>n. now - lastReport_js n < 30000
             \<and> (\<exists>v. get_prop (metrics_js n) ''connected'' = Inr (Some v))) ns"
proof (induction ns arbitrary: act)
  case Nil
  then show ?case by simp
next
  case (Cons n ns)
  show ?case
  proof (cases "now - lastReport_js n < 30000")
    case False
    with Cons show ?thesis by simp
  next
    case True
    from Cons.prems True obtain v r where
      v: "get_prop (metrics_js n) ''connected'' = Inr v" and
      r: "active_js now ns = Inr r" and
      act: "act = (if v \<noteq> None then n # r else r)"
      by (auto split: sum.splits)
    from Cons.IH [OF r] True v act show ?thesis by auto
  qed
qed

lemma active_js_all:
  "\<forall>n\<in>set ns. now - lastReport_js n < 30000
       \<and> (\<exists>v. get_prop (metrics_js n) ''connected'' = Inr (Some v))
   \<Longrightarrow> active_js now ns = Inr ns"
  by (induction ns) auto

lemma js_error_eq: "(a::js_error) = b"
  by (cases a, cases b) simp

lemma active_js_Inl:
  "active_js now ns = Inl e \<longleftrightarrow>
     (\<exists>n\<in>set ns. now - lastReport_js n < 30000
        \<and> get_prop (metrics_js n) ''connected'' = Inl e)"
proof (induction ns)
  case Nil
  show ?case by simp
next
  case (Cons n ns)
  show ?case
  proof (cases "now - lastReport_js n < 30000")
    case False
    with Cons show ?thesis by simp
  next
    case True
    show ?thesis
    proof (cases "get_prop (metrics_js n) ''connected''")
      case (Inl x)
      have "x = e" by (rule js_error_eq)
      with Inl True show ?thesis by auto
    next
      case (Inr v)
      with True Cons show ?thesis by (auto split: sum.splits)
    qed
  qed
qed

lemma field_js_other: "k \<noteq> k' \<Longrightarrow> k \<notin> fst ` set (field_js k' v)"
  by (cases v) (simp_all add: field_js_def)

lemma get_connected_typed:
  "get_prop (Some (json_of_metrics m)) ''connected'' = Inr (map_option JNum (connected m))"
proof -
  let ?rest = "field_js ''avgStartup'' (avgStartup m)
       @ field_js ''avgBitrate'' (avgBitrate m) @ field_js ''avgBuffers'' (avgBuffers m)
       @ field_js ''avgBufferTime'' (avgBufferTime m) @ field_js ''cpu'' (cpu m)
       @ field_js ''mem'' (mem m) @ field_js ''clients'' (clients m)
       @ field_js ''failures'' (failures m)"
  have none: "map_of (rev ?rest) ''connected'' = None"
    by (simp add: map_of_eq_None_iff image_Un field_js_other)
  have "map_of (rev (field_js ''connected'' (connected m) @ ?rest)) ''connected''
      = map_option JNum (connected m)"
    by (simp only: rev_append map_of_append map_add_def none)
      (simp add: field_js_def split: option.splits)
  then show ?thesis by (simp add: json_of_metrics_def)
qed

lemma active_js_typed:
  "active_js now (map node_to_js ns) =
     Inr (map node_to_js
       (filter (\<lambda>n. now - lastReport n < 30000 \<and> connected (metrics n) \<noteq> None) ns))"
proof (induction ns)
  case Nil
  show ?case by simp
next
  case (Cons n ns)
  have g: "get_prop (metrics_js (node_to_js n)) ''connected''
      = Inr (map_option JNum (connected (metrics n)))"
    by (simp add: node_to_js_def get_connected_typed)
  have l: "lastReport_js (node_to_js n) = lastReport n"
    by (simp add: node_to_js_def)
  show ?case by (simp add: Cons.IH g l)
qed

text \<open>
  On a report with numeric fields the handler on JSON stores and filters as the handler
  on \<open>metrics_obj\<close> does, when every node of the registry holds its own connection.
\<close>

lemma on_message_js_typed:
  assumes inv: "\<forall>r\<in>set (nodes s). ws (objs s r) = r"
  shows "on_message_js w (report_js (json_of_metrics m)) now (map node_to_js (live s)) =
     (map node_to_js
        (live (s\<lparr>objs := (objs s)(w := (objs s w)\<lparr>lastReport := now, metrics := m\<rparr>)\<rparr>)),
      Some (Inr (map node_to_js
        (active_nodes now
           (s\<lparr>objs := (objs s)(w := (objs s w)\<lparr>lastReport := now, metrics := m\<rparr>)\<rparr>)))))"
proof -
  let ?s' = "s\<lparr>objs := (objs s)(w := (objs s w)\<lparr>lastReport := now, metrics := m\<rparr>)\<rparr>"
  have upd: "map (\<lambda>n. if ws_js n = w
                 then n\<lparr>lastReport_js := now, metrics_js := Some (json_of_metrics m)\<rparr> else n)
               (map node_to_js (live s))
      = map node_to_js (live ?s')"
    using inv by (simp add: live_def node_to_js_def)
  show ?thesis
    by (simp add: on_message_js_def report_js_def Let_def upd active_js_typed active_nodes_def
        del: map_map)
qed

text \<open>
  Claim C6, as amended. In an aggregation whose filter returns, a node is in the active set
  exactly when it is in the registry, its last report is less than 30000 ms old and its
  \<open>metrics\<close> has a \<open>connected\<close> member, whatever JSON value that member holds. A node
  whose last report is 30000 ms old or older is excluded whatever it reported. The
  excluded nodes do not weigh on the result: the active set is a subsequence of the
  registry and is its own active set, and for reports with numeric fields, where the test
  is the one of \<open>active_nodes\<close>, aggregating after removing every excluded node from the
  registry writes the same gauges and the same \<open>lastTotalClients\<close>.
\<close>

theorem active_filter:
  "(active_js now ns = Inr act \<longrightarrow>
      (n \<in> set act \<longleftrightarrow>
         n \<in> set ns \<and> now - lastReport_js n < 30000
         \<and> (\<exists>v. get_prop (metrics_js n) ''connected'' = Inr (Some v)))
      \<and> (30000 \<le> now - lastReport_js n \<longrightarrow> n \<notin> set act)
      \<and> subseq act ns
      \<and> active_js now act = Inr act)
   \<and> active_js now (map node_to_js (live s)) = Inr (map node_to_js (active_nodes now s))
   \<and> updatePromMetrics now
        (s\<lparr>nodes := filter (\<lambda>r. now - lastReport (objs s r) < 30000
                \<and> connected (metrics (objs s r)) \<noteq> None) (nodes s)\<rparr>)
      = (updatePromMetrics now s)
          \<lparr>nodes := filter (\<lambda>r. now - lastReport (objs s r) < 30000
                \<and> connected (metrics (objs s r)) \<noteq> None) (nodes s)\<rparr>"
proof -
  let ?P = "\<lambda>n. now - lastReport_js n < 30000
             \<and> (\<exists>v. get_prop (metrics_js n) ''connected'' = Inr (Some v))"
  let ?keep = "filter (\<lambda>r. now - lastReport (objs s r) < 30000
                \<and> connected (metrics (objs s r)) \<noteq> None) (nodes s)"
  have js: "(n \<in> set act \<longleftrightarrow> n \<in> set ns \<and> ?P n)
      \<and> (30000 \<le> now - lastReport_js n \<longrightarrow> n \<notin> set act)
      \<and> subseq act ns \<and> active_js now act = Inr act"
    if r: "active_js now ns = Inr act"
  proof -
    have act: "act = filter ?P ns"
      by (rule active_js_Inr [OF r])
    have iff: "n \<in> set act \<longleftrightarrow> n \<in> set ns \<and> ?P n"
      unfolding act by simp
    have stale: "30000 \<le> now - lastReport_js n \<longrightarrow> n \<notin> set act"
      unfolding act by simp
    have sub: "subseq act ns"
      unfolding act by simp
    have "\<forall>n\<in>set act. ?P n"
      unfolding act by simp
    then have again: "active_js now act = Inr act"
      by (rule active_js_all)
    from iff stale sub again show ?thesis by blast
  qed
  have typed: "active_js now (map node_to_js (live s)) = Inr (map node_to_js (active_nodes now s))"
    by (simp add: active_js_typed active_nodes_def)
  have same: "updatePromMetrics now (s\<lparr>nodes := ?keep\<rparr>) = (updatePromMetrics now s)\<lparr>nodes := ?keep\<rparr>"
    unfolding updatePromMetrics_unfold active_nodes_restrict
    by (simp add: Let_def label_writes_def)
  from js typed same show ?thesis by blast
qed

theorem active_filter_witness:
  "active_js 41000 mixed_registry = Inr [mixed_registry ! 0, mixed_registry ! 2]
    \<and> mixed_registry ! 1 \<in> set mixed_registry
    \<and> metrics_js (mixed_registry ! 1) = Some (JObj [(''connected'', JNum 5)])
    \<and> 30000 \<le> 41000 - lastReport_js (mixed_registry ! 1)
    \<and> mixed_registry ! 1 \<notin> set [mixed_registry ! 0, mixed_registry ! 2]
    \<and> mixed_registry ! 0 \<in> set [mixed_registry ! 0, mixed_registry ! 2]
    \<and> metrics_js (mixed_registry ! 0) = Some (JObj [(''connected'', JNull)])
    \<and> active_js 41000 [mixed_registry ! 0, mixed_registry ! 2]
          = Inr [mixed_registry ! 0, mixed_registry ! 2]"
proof -
  have r: "active_js 41000 mixed_registry = Inr [mixed_registry ! 0, mixed_registry ! 2]"
    by code_simp
  have m: "mixed_registry ! 1 \<in> set mixed_registry"
    by code_simp
  have v: "metrics_js (mixed_registry ! 1) = Some (JObj [(''connected'', JNum 5)])"
    by code_simp
  have n: "metrics_js (mixed_registry ! 0) = Some (JObj [(''connected'', JNull)])"
    by code_simp
  have old: "30000 \<le> 41000 - lastReport_js (mixed_registry ! 1)"
    by code_simp
  note t = active_filter [of 41000 mixed_registry "[mixed_registry ! 0, mixed_registry ! 2]"
      "mixed_registry ! 1" two_reporting]
  from t r old have out: "mixed_registry ! 1 \<notin> set [mixed_registry ! 0, mixed_registry ! 2]"
    by blast
  from t r have again: "active_js 41000 [mixed_registry ! 0, mixed_registry ! 2]
          = Inr [mixed_registry ! 0, mixed_registry ! 2]"
    by blast
  have inn: "mixed_registry ! 0 \<in> set [mixed_registry ! 0, mixed_registry ! 2]"
    by simp
  show ?thesis by (intro conjI r m v old out inn n again)
qed

text \<open>
  The claim as stated fails: a node whose latest report is \<open>{"connected": null}\<close>, which
  holds no client count, is in the active set.
\<close>

theorem active_filter_counterexample:
  "map metrics_js null_count = [Some (JObj [(''connected'', JNull)])]
    \<and> map lastReport_js null_count = [1000]
    \<and> active_js 2000 null_count = Inr null_count"
  by code_simp

text \<open>
  A report message without \<open>metrics\<close> leaves the node with \<open>metrics\<close> undefined. While
  that node's report is less than 30000 ms old, the filter throws in every aggregation,
  also in the one that a report of another node starts; afterwards the node is skipped
  before \<open>n.metrics\<close> is read.
\<close>

lemma report_without_metrics:
  "map metrics_js no_metrics = [Some (JObj [(''connected'', JNum 10)]), None]
    \<and> map lastReport_js no_metrics = [1000, 2000]
    \<and> snd (on_message_js 1 (report_js (JObj [(''connected'', JNum 10)])) 3000 no_metrics)
         = Some (Inl TypeError)
    \<and> snd (on_message_js 1 (report_js (JObj [(''connected'', JNum 10)])) 40000 no_metrics)
         = Some (Inr [\<lparr>nodeId_js = ''node-1'', ws_js = 1, lastReport_js = 40000,
                       metrics_js = Some (JObj [(''connected'', JNum 10)])\<rparr>])"
  by code_simp

section \<open>Cluster totals and averages\<close>

lemma or0_eq: "or0 v = (case v of None \<Rightarrow> 0 | Some x \<Rightarrow> x)"
  by (simp add: or0_def split: option.splits)

text \<open>
  Claim C7. In an aggregation cycle with a non-empty active set, the total written is the
  sum of the active nodes' \<open>connected\<close> values and each of the four quality gauges is
  the sum of the active nodes' values of that field divided by the number of active
  nodes, with no weight for a node's client count; a field that a report lacks adds 0
  to its sum.
\<close>

theorem cluster_averages:
  assumes "active_nodes now s \<noteq> []"
  shows "totalClientsGauge (updatePromMetrics now s) =
           (\<Sum>n\<leftarrow>active_nodes now s. case connected (metrics n) of None \<Rightarrow> 0 | Some x \<Rightarrow> x)
    \<and> avgStartupGauge (updatePromMetrics now s) =
           (\<Sum>n\<leftarrow>active_nodes now s. case avgStartup (metrics n) of None \<Rightarrow> 0 | Some x \<Rightarrow> x)
             / of_nat (length (active_nodes now s))
    \<and> avgBitrateGauge (updatePromMetrics now s) =
           (\<Sum>n\<leftarrow>active_nodes now s. case avgBitrate (metrics n) of None \<Rightarrow> 0 | Some x \<Rightarrow> x)
             / of_nat (length (active_nodes now s))
    \<and> avgBuffersGauge (updatePromMetrics now s) =
           (\<Sum>n\<leftarrow>active_nodes now s. case avgBuffers (metrics n) of None \<Rightarrow> 0 | Some x \<Rightarrow> x)
             / of_nat (length (active_nodes now s))
    \<and> avgBufferTimeGauge (updatePromMetrics now s) =
           (\<Sum>n\<leftarrow>active_nodes now s. case avgBufferTime (metrics n) of None \<Rightarrow> 0 | Some x \<Rightarrow> x)
             / of_nat (length (active_nodes now s))"
  using assms
  by (simp add: updatePromMetrics_unfold Let_def field_sums_def label_writes_def or0_eq)

theorem cluster_averages_witness:
  "active_nodes 3000 qoe_reports \<noteq> []
    \<and> totalClientsGauge (updatePromMetrics 3000 qoe_reports) = 15
    \<and> avgStartupGauge (updatePromMetrics 3000 qoe_reports) = 200
    \<and> avgBitrateGauge (updatePromMetrics 3000 qoe_reports) = 1000
    \<and> avgBuffersGauge (updatePromMetrics 3000 qoe_reports) = 3 / 2
    \<and> avgBufferTimeGauge (updatePromMetrics 3000 qoe_reports) = 20"
proof -
  have act: "active_nodes 3000 qoe_reports \<noteq> []"
    by code_simp
  have len: "length (active_nodes 3000 qoe_reports) = 2"
    by code_simp
  have c: "(\<Sum>n\<leftarrow>active_nodes 3000 qoe_reports.
              case connected (metrics n) of None \<Rightarrow> 0 | Some x \<Rightarrow> x) = 15"
    by code_simp
  have st: "(\<Sum>n\<leftarrow>active_nodes 3000 qoe_reports.
              case avgStartup (metrics n) of None \<Rightarrow> 0 | Some x \<Rightarrow> x) = 400"
    by code_simp
  have br: "(\<Sum>n\<leftarrow>active_nodes 3000 qoe_reports.
              case avgBitrate (metrics n) of None \<Rightarrow> 0 | Some x \<Rightarrow> x) = 2000"
    by code_simp
  have bf: "(\<Sum>n\<leftarrow>active_nodes 3000 qoe_reports.
              case avgBuffers (metrics n) of None \<Rightarrow> 0 | Some x \<Rightarrow> x) = 3"
    by code_simp
  have bt: "(\<Sum>n\<leftarrow>active_nodes 3000 qoe_reports.
              case avgBufferTime (metrics n) of None \<Rightarrow> 0 | Some x \<Rightarrow> x) = 40"
    by code_simp
  from cluster_averages [OF act] act len c st br bf bt show ?thesis
    by simp
qed

section \<open>Removal from the registry\<close>

text \<open>
  Claim C8. The close handler of either coordinator removes the node of its connection
  from \<open>nodes\<close>; running it a second time changes nothing, and running it for a
  connection that has no node in \<open>nodes\<close> returns the state unchanged. The nodes that
  remain are all the other nodes, in their previous order.
\<close>

theorem close_idempotent:
  "on_close w (on_close w s) = on_close w s
   \<and> w \<notin> set (nodes (on_close w s))
   \<and> (w \<notin> set (nodes s) \<longrightarrow> on_close w s = s)
   \<and> set (nodes (on_close w s)) = set (nodes s) - {w}
   \<and> subseq (nodes (on_close w s)) (nodes s)
   \<and> cl_close w (cl_close w c) = cl_close w c
   \<and> w \<notin> cn_ws ` set (cl_nodes (cl_close w c))
   \<and> (w \<notin> cn_ws ` set (cl_nodes c) \<longrightarrow> cl_close w c = c)
   \<and> set (cl_nodes (cl_close w c)) = {n \<in> set (cl_nodes c). cn_ws n \<noteq> w}
   \<and> subseq (cl_nodes (cl_close w c)) (cl_nodes c)"
proof -
  have a: "on_close w (on_close w s) = on_close w s"
    by (simp add: on_close_def)
  have b: "w \<notin> set (nodes (on_close w s))"
    by (simp add: on_close_def)
  have c: "on_close w s = s" if "w \<notin> set (nodes s)"
  proof -
    from that have "filter (\<lambda>r. r \<noteq> w) (nodes s) = nodes s"
      by (simp add: filter_id_conv) blast
    then show ?thesis by (simp add: on_close_def)
  qed
  have d: "set (nodes (on_close w s)) = set (nodes s) - {w}"
    by (auto simp: on_close_def)
  have e: "subseq (nodes (on_close w s)) (nodes s)"
    by (simp add: on_close_def)
  have f: "cl_close w (cl_close w c) = cl_close w c"
    by (simp add: cl_close_def)
  have g: "w \<notin> cn_ws ` set (cl_nodes (cl_close w c))"
    by (auto simp: cl_close_def)
  have h: "cl_close w c = c" if "w \<notin> cn_ws ` set (cl_nodes c)"
  proof -
    from that have "filter (\<lambda>n. cn_ws n \<noteq> w) (cl_nodes c) = cl_nodes c"
      by (simp add: filter_id_conv) blast
    then show ?thesis by (simp add: cl_close_def)
  qed
  have i: "set (cl_nodes (cl_close w c)) = {n \<in> set (cl_nodes c). cn_ws n \<noteq> w}"
    by (auto simp: cl_close_def)
  have j: "subseq (cl_nodes (cl_close w c)) (cl_nodes c)"
    by (simp add: cl_close_def)
  from a b c d e f g h i j show ?thesis by blast
qed

theorem close_idempotent_witness:
  "2 \<notin> set (nodes (on_close 2 three_nodes))
    \<and> on_close 2 (on_close 2 three_nodes) = on_close 2 three_nodes
    \<and> nodes three_nodes = [1, 2, 3]
    \<and> nodes (on_close 2 three_nodes) = [1, 3]
    \<and> 2 \<notin> cn_ws ` set (cl_nodes (cl_close 2 cl_three_nodes))
    \<and> cl_close 2 (cl_close 2 cl_three_nodes) = cl_close 2 cl_three_nodes
    \<and> map cn_ws (cl_nodes cl_three_nodes) = [1, 2, 3]
    \<and> map cn_ws (cl_nodes (cl_close 2 cl_three_nodes)) = [1, 3]"
proof -
  have n: "nodes three_nodes = [1, 2, 3]"
    by code_simp
  have n': "nodes (on_close 2 three_nodes) = [1, 3]"
    by code_simp
  have c: "map cn_ws (cl_nodes cl_three_nodes) = [1, 2, 3]"
    by code_simp
  have c': "map cn_ws (cl_nodes (cl_close 2 cl_three_nodes)) = [1, 3]"
    by code_simp
  have h1: "2 \<notin> set (nodes (on_close 2 three_nodes))"
    by (simp add: n')
  have h2: "2 \<notin> cn_ws ` set (cl_nodes (cl_close 2 cl_three_nodes))"
    using c' by (simp flip: set_map)
  from close_idempotent [of 2 "on_close 2 three_nodes" "cl_close 2 cl_three_nodes"]
    h1 h2 n n' c c'
  show ?thesis by simp
qed

section \<open>Reports after the close\<close>






section \<open>Labelled gauges\<close>

lemma fold_label_other:
  "k \<notin> f ` set ns \<Longrightarrow> fold (\<lambda>n g. g(f n \<mapsto> v n)) ns g k = g k"
  by (induction ns arbitrary: g) simp_all

lemma fold_label_dom:
  "dom g \<subseteq> dom (fold (\<lambda>n g. g(f n \<mapsto> v n)) ns g)"
proof (induction ns arbitrary: g)
  case Nil
  show ?case by simp
next
  case (Cons n ns)
  have "dom g \<subseteq> dom (g(f n \<mapsto> v n))" by auto
  also have "\<dots> \<subseteq> dom (fold (\<lambda>n g. g(f n \<mapsto> v n)) ns (g(f n \<mapsto> v n)))"
    by (rule Cons.IH)
  finally show ?case unfolding fold_simps comp_apply .
qed

text \<open>
  What holds of the labelled gauges: an aggregation leaves the four figures under a label
  as they were unless a node of its active set carries that label, and it removes no
  label.
\<close>

lemma label_frame:
  assumes "k \<notin> nodeId ` set (active_nodes now s)"
  shows "nodeCpuGauge (updatePromMetrics now s) k = nodeCpuGauge s k"
    and "nodeMemGauge (updatePromMetrics now s) k = nodeMemGauge s k"
    and "nodeClientsGauge (updatePromMetrics now s) k = nodeClientsGauge s k"
    and "nodeFailuresGauge (updatePromMetrics now s) k = nodeFailuresGauge s k"
  using assms
  by (simp_all add: updatePromMetrics_unfold Let_def label_writes_def fold_label_other)

lemma label_kept:
  "dom (nodeCpuGauge s) \<subseteq> dom (nodeCpuGauge (updatePromMetrics now s))"
  "dom (nodeMemGauge s) \<subseteq> dom (nodeMemGauge (updatePromMetrics now s))"
  "dom (nodeClientsGauge s) \<subseteq> dom (nodeClientsGauge (updatePromMetrics now s))"
  "dom (nodeFailuresGauge s) \<subseteq> dom (nodeFailuresGauge (updatePromMetrics now s))"
  by (simp_all add: updatePromMetrics_unfold Let_def label_writes_def fold_label_dom)

text \<open>
  Claim C10 says that the per-node figures of a node that has left the active set stay as
  they were under every later aggregation. The figures are kept under the node
  identifier, and an identifier is given again after a disconnect: the node admitted
  after \<open>node-1\<close> has left is \<open>node-1\<close> too, and its first report replaces the CPU load
  0.5 that the departed node had published by its own 0.9.
\<close>

theorem node_gauge_overwritten:
  "nodes (run_events gauge_events init) = []
   \<and> nodeCpuGauge (run_events gauge_events init) ''node-1'' = Some (1 / 2)
   \<and> map nodeId (live (run_events gauge_events_after (run_events gauge_events init)))
        = [''node-1'']
   \<and> nodeCpuGauge (run_events gauge_events_after (run_events gauge_events init)) ''node-1''
        = Some (9 / 10)"
  by code_simp

end
